theory Spec2Isabelle
  imports Main
begin

section \<open>Interval codec of the same-picture posting bot (src/main.py)\<close>

text \<open>
  Strings are lists of 8-bit characters read as code points below 256. In that range the
  regular expression class \<^verbatim>\<open>\d\<close> of Python matches the ten ASCII digits and nothing else.
  Python integers are unbounded; counts of seconds are modelled as \<^typ>\<open>int\<close>, and the
  conversions between integers and decimal strings are exact for every length (the
  interpreter's configurable limit on the number of digits is outside the model).
\<close>

subsection \<open>Decimal numerals: \<^verbatim>\<open>int(...)\<close> and \<^verbatim>\<open>str(...)\<close>\<close>

definition is_digit :: "char \<Rightarrow> bool" where
  "is_digit c = (48 \<le> (of_char c :: nat) \<and> (of_char c :: nat) \<le> 57)"

definition digit_val :: "char \<Rightarrow> int" where
  "digit_val c = int (of_char c) - 48"

definition digit_char :: "nat \<Rightarrow> char" where
  "digit_char k = char_of (48 + k)"

text \<open>\<^verbatim>\<open>int(ds)\<close> on a non-empty string of digits (leading zeros allowed).\<close>

definition int_of_digits :: "string \<Rightarrow> int" where
  "int_of_digits ds = foldl (\<lambda>a c. 10 * a + digit_val c) 0 ds"

text \<open>\<^verbatim>\<open>str(n)\<close> for a natural number, and for any integer.\<close>

function str_nat :: "nat \<Rightarrow> string" where
  "str_nat n = (if n < 10 then [digit_char n] else str_nat (n div 10) @ [digit_char (n mod 10)])"
  by pat_completeness auto
termination
  by (relation "measure (\<lambda>n. n)") auto

declare str_nat.simps [simp del]

definition str_int :: "int \<Rightarrow> string" where
  "str_int i = (if i < 0 then CHR ''-'' # str_nat (nat (- i)) else str_nat (nat i))"

subsection \<open>\<^verbatim>\<open>parse_time_interval\<close>\<close>

text \<open>The exceptions that leave a function of the program.\<close>

datatype error =
    ValueError string
  | FileNotFoundError
  | JSONDecodeError
  | DownloadError
  | OverflowError

text \<open>
  One optional group \<^verbatim>\<open>(?:(\d+)u)?\<close> of the pattern, tried at the start of \<open>s\<close>: the
  longest run of digits, which must be non-empty and followed by the unit \<open>u\<close>. The result
  is the captured digits (or \<open>None\<close>, Python's \<^verbatim>\<open>None\<close> group) and the rest of the input.
  Every later group is optional too, so the greedy first attempt of the regex engine is
  the match it returns and no backtracking changes it.
\<close>

definition match_component :: "char \<Rightarrow> string \<Rightarrow> string option \<times> string" where
  "match_component u s =
     (let ds = takeWhile is_digit s in
      case dropWhile is_digit s of
        [] \<Rightarrow> (None, s)
      | c # r \<Rightarrow> if ds \<noteq> [] \<and> c = u then (Some ds, r) else (None, s))"

text \<open>
  \<^verbatim>\<open>re.match(pattern, interval_str)\<close>: the four groups in order, and the unmatched rest
  of the input, which the caller never looks at. The pattern matches the empty string, so
  the match object is never \<^verbatim>\<open>None\<close>.
\<close>

definition re_match :: "string \<Rightarrow> (string option \<times> string option \<times> string option \<times> string option) \<times> string" where
  "re_match s =
     (let (g1, s1) = match_component CHR ''d'' s;
          (g2, s2) = match_component CHR ''h'' s1;
          (g3, s3) = match_component CHR ''m'' s2;
          (g4, s4) = match_component CHR ''s'' s3
      in ((g1, g2, g3, g4), s4))"

text \<open>\<^verbatim>\<open>int(match.group(i) or 0)\<close>\<close>

definition group_int :: "string option \<Rightarrow> int" where
  "group_int g = (case g of None \<Rightarrow> 0 | Some ds \<Rightarrow> int_of_digits ds)"

definition parse_time_interval :: "string \<Rightarrow> error + int" where
  "parse_time_interval interval_str =
     (if interval_str = [] then Inr 0
      else
        (case fst (re_match interval_str) of (g1, g2, g3, g4) \<Rightarrow>
           if g1 = None \<and> g2 = None \<and> g3 = None \<and> g4 = None
           then Inl (ValueError (''Invalid time interval format: '' @ interval_str))
           else
             (let days = group_int g1; hours = group_int g2;
                  minutes = group_int g3; seconds = group_int g4
              in Inr (days * 86400 + hours * 3600 + minutes * 60 + seconds))))"

subsection \<open>\<^verbatim>\<open>format_time_interval\<close>\<close>

text \<open>
  Python's \<^verbatim>\<open>divmod\<close> on integers is floor division, as \<open>div\<close> and \<open>mod\<close> on \<^typ>\<open>int\<close>.
\<close>

definition format_time_interval :: "int \<Rightarrow> string" where
  "format_time_interval seconds =
     (let days = seconds div 86400; remainder = seconds mod 86400;
          hours = remainder div 3600; remainder' = remainder mod 3600;
          minutes = remainder' div 60; seconds' = remainder' mod 60;
          result = [];
          result = (if days > 0 then result @ str_int days @ ''d'' else result);
          result = (if hours > 0 then result @ str_int hours @ ''h'' else result);
          result = (if minutes > 0 then result @ str_int minutes @ ''m'' else result);
          result = (if seconds' > 0 \<or> result = [] then result @ str_int seconds' @ ''s'' else result)
      in result)"


section \<open>Persisted configuration and the world around the bot\<close>

text \<open>
  The record kept in \<^verbatim>\<open>config.json\<close>. \<open>last_post_time\<close> is \<open>None\<close> for JSON \<^verbatim>\<open>null\<close>.
\<close>

record config =
  admin_id :: int
  bot_token :: string
  channel_name :: string
  picture_path :: string
  post_interval :: string
  last_post_time :: "int option"

datatype config_file_state = Missing | Corrupt | Stored config

text \<open>
  What the bot says to the invoking user. Each constructor stands for one
  \<^verbatim>\<open>reply_text\<close> call of the source and carries the values interpolated into its text:
  \<^item> \<open>NotAuthorized\<close>: "You are not authorized to use this bot."
  \<^item> \<open>Welcome\<close>: the command list of \<^verbatim>\<open>/start\<close>
  \<^item> \<open>StatusText channel picture interval formatted times\<close>: the settings report
  \<^item> \<open>ChannelUsage\<close>: "Please provide a valid channel name starting with @. ..."
  \<^item> \<open>ChannelSet name\<close>: "Channel set to name"
  \<^item> \<open>IntervalUsage\<close>: "Please provide a time interval. ..."
  \<^item> \<open>IntervalTooSmall\<close>: "Interval must be at least 10 seconds."
  \<^item> \<open>IntervalSet str formatted\<close>: "Posting interval set to str (formatted)"
  \<^item> \<open>ErrorText msg\<close>: the text of a caught \<^verbatim>\<open>ValueError\<close>
  \<^item> \<open>PictureSet path\<close>: "Picture set to path"
  \<^item> \<open>PictureUsage\<close>: "Please reply to a photo with /setpicture ..."
  \<^item> \<open>PictureNotFound path\<close>: "Picture not found: path ..."
  \<^item> \<open>PostedOK\<close>: "Picture posted successfully!"
  \<^item> \<open>PostError msg\<close>: "Error posting picture: msg"
\<close>

datatype post_times =
    NoPostsYet
  | PostTimes int int "(int \<times> int \<times> int \<times> int) option"

datatype reply =
    NotAuthorized
  | Welcome
  | StatusText string string string string post_times
  | ChannelUsage
  | ChannelSet string
  | IntervalUsage
  | IntervalTooSmall
  | IntervalSet string string
  | ErrorText string
  | PictureSet string
  | PictureUsage
  | PictureNotFound string
  | PostedOK
  | PostError string

datatype log_entry = LogInfo string | LogError string

text \<open>The two callbacks that \<^verbatim>\<open>schedule_next_post\<close> hands to the job queue.\<close>

datatype job = PostScheduledPicture | ScheduleNextPost

text \<open>
  The state the program reads and writes: the configuration file, the paths that exist
  on disk (files and directories alike), the photos delivered to channels (chat id and
  picture path), the replies sent to the invoking user, the log, and the one-shot jobs
  queued so far, each with its delay in seconds.
\<close>

record world =
  config_file :: config_file_state
  files :: "string list"
  channel_posts :: "(string \<times> string) list"
  replies :: "reply list"
  log :: "log_entry list"
  job_queue :: "(job \<times> int) list"

type_synonym 'a outcome = "(error + 'a) \<times> world"

definition logger_info :: "string \<Rightarrow> world \<Rightarrow> world" where
  "logger_info msg w = w\<lparr>log := log w @ [LogInfo msg]\<rparr>"

definition logger_error :: "string \<Rightarrow> world \<Rightarrow> world" where
  "logger_error msg w = w\<lparr>log := log w @ [LogError msg]\<rparr>"

definition reply_text :: "reply \<Rightarrow> world \<Rightarrow> world" where
  "reply_text r w = w\<lparr>replies := replies w @ [r]\<rparr>"

definition load_config :: "world \<Rightarrow> config outcome" where
  "load_config w =
     (case config_file w of
        Missing \<Rightarrow> (Inl FileNotFoundError, logger_error ''Config file config.json not found.'' w)
      | Corrupt \<Rightarrow>
          (Inl JSONDecodeError,
           logger_error ''Error parsing config.json. Make sure it's valid JSON.'' w)
      | Stored c \<Rightarrow> (Inr c, w))"

text \<open>Writing the file is taken to succeed, and so is the delivery of a reply.\<close>

definition save_config :: "config \<Rightarrow> world \<Rightarrow> world" where
  "save_config c w = logger_info ''Config saved successfully.'' (w\<lparr>config_file := Stored c\<rparr>)"

text \<open>Python's truth value of \<^verbatim>\<open>config['last_post_time']\<close>: false for \<^verbatim>\<open>None\<close> and for \<open>0\<close>.\<close>

fun truthy :: "int option \<Rightarrow> bool" where
  "truthy None = False"
| "truthy (Some t) = (t \<noteq> 0)"

text \<open>
  \<^verbatim>\<open>timedelta(seconds=s)\<close> for an integer \<open>s\<close>: the number of whole days, \<open>s div 86400\<close>,
  must have magnitude at most 999999999, else the constructor raises \<^verbatim>\<open>OverflowError\<close>.
  A duration in range is kept as its number of seconds.
\<close>

definition timedelta :: "int \<Rightarrow> error + int" where
  "timedelta s =
     (if s div 86400 < - 999999999 \<or> 999999999 < s div 86400 then Inl OverflowError
      else Inr s)"

section \<open>Commands\<close>

text \<open>
  Every command takes the identity \<open>uid\<close> of the invoking user. An exception that leaves
  the handler is the \<open>Inl\<close> result.
\<close>

definition start :: "int \<Rightarrow> world \<Rightarrow> unit outcome" where
  "start uid w =
     (case load_config w of
        (Inl e, w1) \<Rightarrow> (Inl e, w1)
      | (Inr config, w1) \<Rightarrow>
          if uid \<noteq> admin_id config then (Inr (), reply_text NotAuthorized w1)
          else (Inr (), reply_text Welcome w1))"

text \<open>
  \<^verbatim>\<open>status\<close>. The clock \<open>now_us\<close> is in microseconds since the epoch, the resolution of
  \<^verbatim>\<open>datetime.now()\<close>. \<open>utc_offset t\<close> is the offset of local time from UTC, in seconds, in
  force at the epoch second \<open>t\<close>: \<^verbatim>\<open>datetime.fromtimestamp\<close> and \<^verbatim>\<open>datetime.now\<close> give naive
  local times, each with the offset of its own instant, and the source adds and subtracts
  those naive times. A naive local time is kept as its count of seconds (for the clock,
  microseconds) from the local 1970-01-01 00:00:00, and the report carries the two
  instants so instead of their \<^verbatim>\<open>strftime\<close> rendering; the time left is
  \<open>(days, hours, minutes, seconds)\<close> of the difference. The year range of \<^verbatim>\<open>datetime\<close> is
  outside the model.
\<close>

definition status :: "int \<Rightarrow> (int \<Rightarrow> int) \<Rightarrow> int \<Rightarrow> world \<Rightarrow> unit outcome" where
  "status uid utc_offset now_us w =
     (case load_config w of
        (Inl e, w1) \<Rightarrow> (Inl e, w1)
      | (Inr config, w1) \<Rightarrow>
          if uid \<noteq> admin_id config then (Inr (), reply_text NotAuthorized w1)
          else
            (case parse_time_interval (post_interval config) of
               Inl e \<Rightarrow> (Inl e, w1)
             | Inr interval_seconds \<Rightarrow>
                 (let report = (\<lambda>times.
                        (Inr (),
                         reply_text
                           (StatusText (channel_name config) (picture_path config)
                              (post_interval config) (format_time_interval interval_seconds) times)
                           w1))
                  in if truthy (last_post_time config) then
                       (let last_post = the (last_post_time config)
                                          + utc_offset (the (last_post_time config))
                        in case timedelta interval_seconds of
                             Inl e \<Rightarrow> (Inl e, w1)
                           | Inr td \<Rightarrow>
                               (let next_post = last_post + td;
                                    now = now_us + utc_offset (now_us div 1000000) * 1000000;
                                    time_left = next_post * 1000000 - now
                                in report
                                     (PostTimes last_post next_post
                                        (if time_left > 0 then
                                           (let days = time_left div 86400000000;
                                                secs = (time_left div 1000000) mod 86400;
                                                hours = secs div 3600; remainder = secs mod 3600;
                                                minutes = remainder div 60;
                                                seconds = remainder mod 60
                                            in Some (days, hours, minutes, seconds))
                                         else None))))
                     else report NoPostsYet)))"

text \<open>\<^verbatim>\<open>context.args[0].startswith('@')\<close>\<close>

fun startswith_at :: "string \<Rightarrow> bool" where
  "startswith_at [] = False"
| "startswith_at (c # cs) = (c = CHR ''@'')"

definition set_channel :: "int \<Rightarrow> string list \<Rightarrow> world \<Rightarrow> unit outcome" where
  "set_channel uid args w =
     (case load_config w of
        (Inl e, w1) \<Rightarrow> (Inl e, w1)
      | (Inr config, w1) \<Rightarrow>
          if uid \<noteq> admin_id config then (Inr (), reply_text NotAuthorized w1)
          else
            (case args of
               [] \<Rightarrow> (Inr (), reply_text ChannelUsage w1)
             | channel_name' # _ \<Rightarrow>
                 if \<not> startswith_at channel_name' then (Inr (), reply_text ChannelUsage w1)
                 else
                   (Inr (),
                    reply_text (ChannelSet channel_name')
                      (save_config (config\<lparr>channel_name := channel_name'\<rparr>) w1))))"

definition set_interval :: "int \<Rightarrow> string list \<Rightarrow> world \<Rightarrow> unit outcome" where
  "set_interval uid args w =
     (case load_config w of
        (Inl e, w1) \<Rightarrow> (Inl e, w1)
      | (Inr config, w1) \<Rightarrow>
          if uid \<noteq> admin_id config then (Inr (), reply_text NotAuthorized w1)
          else
            (case args of
               [] \<Rightarrow> (Inr (), reply_text IntervalUsage w1)
             | interval_str # _ \<Rightarrow>
                 (case parse_time_interval interval_str of
                    Inr seconds \<Rightarrow>
                      if seconds < 10 then (Inr (), reply_text IntervalTooSmall w1)
                      else
                        (Inr (),
                         reply_text (IntervalSet interval_str (format_time_interval seconds))
                           (save_config (config\<lparr>post_interval := interval_str\<rparr>) w1))
                  | Inl (ValueError msg) \<Rightarrow> (Inr (), reply_text (ErrorText msg) w1)
                  | Inl e \<Rightarrow> (Inl e, w1))))"

text \<open>
  \<^verbatim>\<open>set_picture\<close>. \<open>reply_photo\<close> is the list of photo sizes of the message replied to
  (\<open>None\<close> when the command is not a reply); \<open>now\<close> is \<^verbatim>\<open>int(time.time())\<close>;
  \<open>download_ok\<close> says whether fetching the file succeeds. \<^verbatim>\<open>os.makedirs\<close> runs before the
  download and is taken to succeed: afterwards the directory exists.
\<close>

definition makedirs :: "string \<Rightarrow> world \<Rightarrow> world" where
  "makedirs path w = w\<lparr>files := (if path \<in> set (files w) then files w else files w @ [path])\<rparr>"

definition set_picture :: "int \<Rightarrow> string list option \<Rightarrow> int \<Rightarrow> bool \<Rightarrow> world \<Rightarrow> unit outcome" where
  "set_picture uid reply_photo now download_ok w =
     (case load_config w of
        (Inl e, w1) \<Rightarrow> (Inl e, w1)
      | (Inr config, w1) \<Rightarrow>
          if uid \<noteq> admin_id config then (Inr (), reply_text NotAuthorized w1)
          else if reply_photo \<noteq> None \<and> the reply_photo \<noteq> [] then
            (let w2 = makedirs ''pictures'' w1
             in if \<not> download_ok then (Inl DownloadError, w2)
                else
                  (let file_path = ''pictures/picture_'' @ str_int now @ ''.jpg'';
                       w3 = w2\<lparr>files := (if file_path \<in> set (files w2) then files w2
                                           else files w2 @ [file_path])\<rparr>
                   in (Inr (),
                       reply_text (PictureSet file_path)
                         (save_config (config\<lparr>picture_path := file_path\<rparr>) w3))))
          else (Inr (), reply_text PictureUsage w1))"

text \<open>
  Posting. \<open>now\<close> is \<^verbatim>\<open>int(time.time())\<close> after the transmission. \<open>send\<close> is the outcome of
  opening the picture and \<^verbatim>\<open>send_photo\<close>: \<open>None\<close> when both succeed, \<open>Some msg\<close> when one
  raises an exception whose text is \<open>msg\<close>.
\<close>

definition post_now :: "int \<Rightarrow> int \<Rightarrow> string option \<Rightarrow> world \<Rightarrow> unit outcome" where
  "post_now uid now send w =
     (case load_config w of
        (Inl e, w1) \<Rightarrow> (Inl e, w1)
      | (Inr config, w1) \<Rightarrow>
          if uid \<noteq> admin_id config then (Inr (), reply_text NotAuthorized w1)
          else if picture_path config \<notin> set (files w1) then
            (Inr (), reply_text (PictureNotFound (picture_path config)) w1)
          else
            (case send of
               Some msg \<Rightarrow> (Inr (), reply_text (PostError msg) w1)
             | None \<Rightarrow>
                 (let w2 = w1\<lparr>channel_posts :=
                                 channel_posts w1 @ [(channel_name config, picture_path config)]\<rparr>;
                      w3 = save_config (config\<lparr>last_post_time := Some now\<rparr>) w2
                  in (Inr (), reply_text PostedOK w3))))"

definition post_scheduled_picture :: "int \<Rightarrow> string option \<Rightarrow> world \<Rightarrow> unit outcome" where
  "post_scheduled_picture now send w =
     (case load_config w of
        (Inl e, w1) \<Rightarrow> (Inl e, w1)
      | (Inr config, w1) \<Rightarrow>
          if picture_path config \<notin> set (files w1) then
            (Inr (), logger_error (''Picture not found: '' @ picture_path config) w1)
          else
            (case send of
               Some msg \<Rightarrow> (Inr (), logger_error (''Error posting scheduled picture: '' @ msg) w1)
             | None \<Rightarrow>
                 (let w2 = w1\<lparr>channel_posts :=
                                 channel_posts w1 @ [(channel_name config, picture_path config)]\<rparr>;
                      w3 = save_config (config\<lparr>last_post_time := Some now\<rparr>) w2
                  in (Inr (),
                      logger_info (''Scheduled picture posted to '' @ channel_name config) w3))))"

section \<open>Scheduler\<close>

text \<open>
  The delay computed by \<^verbatim>\<open>schedule_next_post\<close> from the loaded configuration, the parsed
  interval and \<open>now = int(time.time())\<close>.
\<close>

definition next_delay :: "config \<Rightarrow> int \<Rightarrow> int \<Rightarrow> int" where
  "next_delay config interval_seconds now =
     (if truthy (last_post_time config) then
        (let last_post_time' = the (last_post_time config);
             next_post_time = last_post_time' + interval_seconds
         in if next_post_time \<le> now then 1 else next_post_time - now)
      else interval_seconds)"

text \<open>\<^verbatim>\<open>application.job_queue.run_once(callback, delay)\<close>: one more job in the queue.\<close>

definition run_once :: "job \<Rightarrow> int \<Rightarrow> world \<Rightarrow> world" where
  "run_once callback delay w = w\<lparr>job_queue := job_queue w @ [(callback, delay)]\<rparr>"

text \<open>
  \<^verbatim>\<open>schedule_next_post\<close> queues the post after \<open>delay\<close> seconds and its own next run after
  \<open>delay + 1\<close>. Each \<^verbatim>\<open>timedelta\<close> is built just before its job is queued, so an
  \<^verbatim>\<open>OverflowError\<close> of the first leaves the queue as it was and one of the second leaves
  the post queued alone.
\<close>

definition schedule_next_post :: "int \<Rightarrow> world \<Rightarrow> unit outcome" where
  "schedule_next_post now w =
     (case load_config w of
        (Inl e, w1) \<Rightarrow> (Inl e, w1)
      | (Inr config, w1) \<Rightarrow>
          (case parse_time_interval (post_interval config) of
             Inl e \<Rightarrow> (Inl e, w1)
           | Inr interval_seconds \<Rightarrow>
               (let delay = next_delay config interval_seconds now;
                    w2 = logger_info (''Scheduling next post in '' @ format_time_interval delay) w1
                in case timedelta delay of
                     Inl e \<Rightarrow> (Inl e, w2)
                   | Inr delay_post \<Rightarrow>
                       (let w3 = run_once PostScheduledPicture delay_post w2
                        in case timedelta (delay + 1) of
                             Inl e \<Rightarrow> (Inl e, w3)
                           | Inr delay_next \<Rightarrow> (Inr (), run_once ScheduleNextPost delay_next w3)))))"

section \<open>Notions used to state the properties\<close>

text \<open>
  A present group is its digits followed by its unit; an absent group is empty.
\<close>

definition group_str :: "string option \<Rightarrow> char \<Rightarrow> string" where
  "group_str g u = (case g of None \<Rightarrow> [] | Some ds \<Rightarrow> ds @ [u])"

text \<open>
  The digits of a present group: one or more decimal digits.
\<close>

definition digits_ok :: "string option \<Rightarrow> bool" where
  "digits_ok g = (case g of None \<Rightarrow> True | Some ds \<Rightarrow> ds \<noteq> [] \<and> list_all is_digit ds)"

text \<open>
  A compact duration string: the groups for days, hours, minutes and seconds, in that order,
  each present or absent.
\<close>

definition duration_str :: "string option \<times> string option \<times> string option \<times> string option \<Rightarrow> string" where
  "duration_str gs = (case gs of (g1, g2, g3, g4) \<Rightarrow>
     group_str g1 CHR ''d'' @ group_str g2 CHR ''h'' @ group_str g3 CHR ''m'' @ group_str g4 CHR ''s'')"

text \<open>
  A string begins with a component when its longest run of leading digits is non-empty and
  is followed by one of the four unit letters.
\<close>

definition starts_component :: "string \<Rightarrow> bool" where
  "starts_component t =
     (case dropWhile is_digit t of
        [] \<Rightarrow> False
      | c # r \<Rightarrow> takeWhile is_digit t \<noteq> [] \<and> c \<in> set ''dhms'')"

text \<open>
  The units are numbered 1 to 4 in the order d, h, m, s. \<open>last_unit\<close> is the number of the
  last group present (0 when there is none), and a string begins with a later component
  than the \<open>k\<close>-th when its longest run of leading digits is non-empty and is followed by
  the letter of a unit numbered above \<open>k\<close>.
\<close>

definition last_unit :: "string option \<times> string option \<times> string option \<times> string option \<Rightarrow> nat" where
  "last_unit gs = (case gs of (g1, g2, g3, g4) \<Rightarrow>
     if g4 \<noteq> None then 4 else if g3 \<noteq> None then 3 else if g2 \<noteq> None then 2
     else if g1 \<noteq> None then 1 else 0)"

definition starts_later_component :: "nat \<Rightarrow> string \<Rightarrow> bool" where
  "starts_later_component k t =
     (case dropWhile is_digit t of
        [] \<Rightarrow> False
      | c # r \<Rightarrow> takeWhile is_digit t \<noteq> [] \<and> c \<in> set (drop k ''dhms''))"

text \<open>
  The group that \<^verbatim>\<open>format_time_interval\<close> emits for days, hours or minutes.
\<close>

definition opt_group :: "int \<Rightarrow> string option" where
  "opt_group k = (if k > 0 then Some (str_int k) else None)"

text \<open>
  The string building of \<^verbatim>\<open>format_time_interval\<close> once the four quantities are known.
\<close>

definition format_parts :: "int \<Rightarrow> int \<Rightarrow> int \<Rightarrow> int \<Rightarrow> string" where
  "format_parts d h m s =
     (let result = [];
          result = (if d > 0 then result @ str_int d @ ''d'' else result);
          result = (if h > 0 then result @ str_int h @ ''h'' else result);
          result = (if m > 0 then result @ str_int m @ ''m'' else result);
          result = (if s > 0 \<or> result = [] then result @ str_int s @ ''s'' else result)
      in result)"

text \<open>
  The seconds group that \<^verbatim>\<open>format_time_interval\<close> emits.
\<close>

definition last_group :: "int \<Rightarrow> int \<Rightarrow> int \<Rightarrow> int \<Rightarrow> string option" where
  "last_group d h m s = (if s > 0 \<or> (\<not> d > 0 \<and> \<not> h > 0 \<and> \<not> m > 0) then Some (str_int s) else None)"

text \<open>
  The formatter as the specification words it: of the days, hours, minutes and seconds of
  the total, the non-zero ones in that order, each followed by its unit; \<^verbatim>\<open>0s\<close> when all
  four are zero.
\<close>

definition format_spec :: "int \<Rightarrow> string" where
  "format_spec n =
     (let comps = filter (\<lambda>(k, u). k \<noteq> 0)
                    [(n div 86400, CHR ''d''), (n div 3600 mod 24, CHR ''h''),
                     (n div 60 mod 60, CHR ''m''), (n mod 60, CHR ''s'')]
      in if comps = [] then ''0s'' else concat (map (\<lambda>(k, u). str_int k @ [u]) comps))"

text \<open>
  A configuration and a world to evaluate the commands on: the picture is on disk, user 42
  is the operator, the last post was at second 1000 and the interval is one hour.
\<close>

definition example_config :: config where
  "example_config =
     \<lparr>admin_id = 42, bot_token = ''token'', channel_name = ''@channel'',
      picture_path = ''pictures/cat.jpg'', post_interval = ''1h'', last_post_time = Some 1000\<rparr>"

definition example_world :: world where
  "example_world =
     \<lparr>config_file = Stored example_config, files = [''pictures/cat.jpg''], channel_posts = [],
      replies = [], log = [], job_queue = []\<rparr>"

section \<open>Facts about the codec\<close>

lemma is_digit_digit_char: "k < 10 \<Longrightarrow> is_digit (digit_char k)"
  by (simp add: is_digit_def digit_char_def)
lemma digit_val_digit_char: "k < 10 \<Longrightarrow> digit_val (digit_char k) = int k"
  by (simp add: digit_val_def digit_char_def)
lemma not_digit_units: "\<not> is_digit CHR ''d''" "\<not> is_digit CHR ''h''" "\<not> is_digit CHR ''m''" "\<not> is_digit CHR ''s''"
  by (simp_all add: is_digit_def)

lemma takeWhile_digits: "list_all is_digit ds \<Longrightarrow> \<not> is_digit c \<Longrightarrow> takeWhile is_digit (ds @ c # r) = ds"
  by (induction ds) simp_all
lemma dropWhile_digits: "list_all is_digit ds \<Longrightarrow> \<not> is_digit c \<Longrightarrow> dropWhile is_digit (ds @ c # r) = c # r"
  by (induction ds) simp_all

lemma match_component_hit:
  "list_all is_digit ds \<Longrightarrow> ds \<noteq> [] \<Longrightarrow> \<not> is_digit u \<Longrightarrow> match_component u (ds @ u # r) = (Some ds, r)"
  by (simp add: match_component_def takeWhile_digits dropWhile_digits)

lemma match_component_miss:
  "list_all is_digit ds \<Longrightarrow> \<not> is_digit c \<Longrightarrow> c \<noteq> u \<Longrightarrow> match_component u (ds @ c # r) = (None, ds @ c # r)"
  by (simp add: match_component_def takeWhile_digits dropWhile_digits)

lemma match_component_nil: "match_component u [] = (None, [])"
  by (simp add: match_component_def)

lemma match_component_none:
  "\<not> starts_component t \<Longrightarrow> u \<in> set ''dhms'' \<Longrightarrow> match_component u t = (None, t)"
  by (cases "dropWhile is_digit t")
     (auto simp add: match_component_def starts_component_def simp del: dropWhile_eq_Nil_conv)

lemma re_match_duration:
  assumes "digits_ok g1" "digits_ok g2" "digits_ok g3" "digits_ok g4" "\<not> starts_component t"
  shows "re_match (duration_str (g1, g2, g3, g4) @ t) = ((g1, g2, g3, g4), t)"
proof -
  have u: "match_component CHR ''d'' t = (None, t)" "match_component CHR ''h'' t = (None, t)"
    "match_component CHR ''m'' t = (None, t)" "match_component CHR ''s'' t = (None, t)"
    using assms(5) by (simp_all add: match_component_none)
  show ?thesis
    using assms(1-4)
    by (cases g1; cases g2; cases g3; cases g4)
       (simp_all add: re_match_def duration_str_def group_str_def digits_ok_def u
          match_component_hit match_component_miss not_digit_units)
qed

lemma str_nat_digits: "list_all is_digit (str_nat n)"
  by (induction n rule: str_nat.induct) (subst str_nat.simps, simp add: is_digit_digit_char)
lemma str_nat_nonempty: "str_nat n \<noteq> []"
  by (subst str_nat.simps) simp
lemma int_of_digits_snoc: "int_of_digits (ds @ [c]) = 10 * int_of_digits ds + digit_val c"
  by (simp add: int_of_digits_def)
lemma int_of_digits_str_nat: "int_of_digits (str_nat n) = int n"
proof (induction n rule: str_nat.induct)
  case (1 n)
  show ?case
  proof (cases "n < 10")
    case True
    then show ?thesis by (subst str_nat.simps) (simp add: int_of_digits_def digit_val_digit_char)
  next
    case False
    with 1 have ih: "int_of_digits (str_nat (n div 10)) = int (n div 10)" by simp
    have "str_nat n = str_nat (n div 10) @ [digit_char (n mod 10)]"
      using False by (subst str_nat.simps) simp
    then have "int_of_digits (str_nat n) = 10 * int (n div 10) + int (n mod 10)"
      by (simp only: int_of_digits_snoc ih) (simp add: digit_val_digit_char)
    also have "\<dots> = int n"
      by (simp add: zdiv_int zmod_int)
    finally show ?thesis .
  qed
qed

lemma digits_ok_opt_group: "digits_ok (opt_group k)"
  by (simp add: digits_ok_def opt_group_def str_int_def str_nat_digits str_nat_nonempty)

lemma digits_ok_str_int: "0 \<le> k \<Longrightarrow> digits_ok (Some (str_int k))"
  by (simp add: digits_ok_def str_int_def str_nat_digits str_nat_nonempty)

lemma group_int_opt_group: "0 \<le> k \<Longrightarrow> group_int (opt_group k) = k"
  by (simp add: group_int_def opt_group_def str_int_def int_of_digits_str_nat)

lemma group_int_str_int: "0 \<le> k \<Longrightarrow> group_int (Some (str_int k)) = k"
  by (simp add: group_int_def str_int_def int_of_digits_str_nat)

lemma recompose_gen: "(n::int) div a * a + (n mod a div b * b + (n mod a mod b div c * c + n mod a mod b mod c)) = n"
  by (simp only: div_mult_mod_eq)

lemma recompose: "(n::int) div 86400 * 86400 + n mod 86400 div 3600 * 3600 + n mod 86400 mod 3600 div 60 * 60 + n mod 86400 mod 3600 mod 60 = n"
  using recompose_gen[of n 86400 3600 60] by (simp only: add.assoc)

lemma format_time_interval_parts:
  "format_time_interval n =
     format_parts (n div 86400) (n mod 86400 div 3600) (n mod 86400 mod 3600 div 60) (n mod 86400 mod 3600 mod 60)"
  by (simp only: format_time_interval_def format_parts_def Let_def)

lemma str_int_nonempty: "str_int k \<noteq> []"
  by (simp add: str_int_def str_nat_nonempty)

lemma format_parts_duration:
  "format_parts d h m s = duration_str (opt_group d, opt_group h, opt_group m, last_group d h m s)"
  by (simp add: format_parts_def duration_str_def group_str_def opt_group_def last_group_def Let_def
        str_int_nonempty)

lemma format_parts_nonempty: "format_parts d h m s \<noteq> []"
  by (simp add: format_parts_def Let_def str_int_nonempty)

lemma digits_ok_last_group: "0 \<le> s \<Longrightarrow> digits_ok (last_group d h m s)"
  using digits_ok_str_int[of s] by (simp add: last_group_def digits_ok_def)

lemma group_int_last_group: "0 \<le> s \<Longrightarrow> group_int (last_group d h m s) = s"
  using group_int_str_int[of s] by (auto simp add: last_group_def group_int_def)

lemma groups_present: "\<not> (opt_group d = None \<and> opt_group h = None \<and> opt_group m = None \<and> last_group d h m s = None)"
  by (auto simp add: opt_group_def last_group_def)

lemma not_starts_component_Nil: "\<not> starts_component []"
  by (simp add: starts_component_def)

lemma parse_format_parts:
  assumes "0 \<le> d" "0 \<le> h" "0 \<le> m" "0 \<le> s"
  shows "parse_time_interval (format_parts d h m s) = Inr (d * 86400 + h * 3600 + m * 60 + s)"
proof -
  have "re_match (duration_str (opt_group d, opt_group h, opt_group m, last_group d h m s) @ [])
          = ((opt_group d, opt_group h, opt_group m, last_group d h m s), [])"
    by (rule re_match_duration[OF digits_ok_opt_group digits_ok_opt_group digits_ok_opt_group
          digits_ok_last_group[OF assms(4)] not_starts_component_Nil])
  then have rm: "re_match (format_parts d h m s)
          = ((opt_group d, opt_group h, opt_group m, last_group d h m s), [])"
    by (simp only: format_parts_duration append_Nil2)
  show ?thesis
    using format_parts_nonempty[of d h m s] groups_present[of d h m s]
    by (simp only: parse_time_interval_def rm fst_conv prod.case Let_def if_False
          group_int_opt_group[OF assms(1)] group_int_opt_group[OF assms(2)]
          group_int_opt_group[OF assms(3)] group_int_last_group[OF assms(4)])
qed

lemma hours_eq: "(n::int) mod 86400 div 3600 = n div 3600 mod 24"
proof -
  have "n mod (3600 * 24) = 3600 * (n div 3600 mod 24) + n mod 3600"
    by (rule zmod_zmult2_eq) simp
  then have "n mod 86400 div 3600 = (3600 * (n div 3600 mod 24) + n mod 3600) div 3600"
    by simp
  also have "\<dots> = n div 3600 mod 24"
    by simp
  finally show ?thesis .
qed

lemma rem_eq: "(n::int) mod 86400 mod 3600 = n mod 3600"
  by (rule mod_mod_cancel) simp

lemma minutes_eq: "(n::int) mod 3600 div 60 = n div 60 mod 60"
proof -
  have "n mod (60 * 60) = 60 * (n div 60 mod 60) + n mod 60"
    by (rule zmod_zmult2_eq) simp
  then have "n mod 3600 div 60 = (60 * (n div 60 mod 60) + n mod 60) div 60"
    by simp
  also have "\<dots> = n div 60 mod 60"
    by simp
  finally show ?thesis .
qed

lemma seconds_eq: "(n::int) mod 3600 mod 60 = n mod 60"
  by (rule mod_mod_cancel) simp

lemma str_int_0: "str_int 0 = ''0''"
  by code_simp

lemma format_parts_spec:
  assumes "0 \<le> d" "0 \<le> h" "0 \<le> m" "0 \<le> s"
  shows "format_parts d h m s =
     (let comps = filter (\<lambda>(k, u). k \<noteq> 0) [(d, CHR ''d''), (h, CHR ''h''), (m, CHR ''m''), (s, CHR ''s'')]
      in if comps = [] then ''0s'' else concat (map (\<lambda>(k, u). str_int k @ [u]) comps))"
proof -
  have p: "d > 0 \<longleftrightarrow> d \<noteq> 0" "h > 0 \<longleftrightarrow> h \<noteq> 0" "m > 0 \<longleftrightarrow> m \<noteq> 0" "s > 0 \<longleftrightarrow> s \<noteq> 0"
    using assms by auto
  show ?thesis
    unfolding format_parts_def Let_def p
    by (cases "d = 0"; cases "h = 0"; cases "m = 0"; cases "s = 0")
       (simp_all add: str_int_nonempty str_int_0)
qed

lemma re_match_component_first:
  assumes "list_all is_digit ds" "ds \<noteq> []" "u \<in> set ''dhms''"
  shows "fst (re_match (ds @ u # r)) \<noteq> (None, None, None, None)"
proof -
  from assms(3) consider "u = CHR ''d''" | "u = CHR ''h''" | "u = CHR ''m''" | "u = CHR ''s''"
    by auto
  then show ?thesis
  proof cases
    case 1
    then show ?thesis using assms(1,2)
      by (simp add: re_match_def split_beta match_component_hit not_digit_units)
  next
    case 2
    then show ?thesis using assms(1,2)
      by (simp add: re_match_def split_beta match_component_hit match_component_miss not_digit_units)
  next
    case 3
    then show ?thesis using assms(1,2)
      by (simp add: re_match_def split_beta match_component_hit match_component_miss not_digit_units)
  next
    case 4
    then show ?thesis using assms(1,2)
      by (simp add: re_match_def split_beta match_component_hit match_component_miss not_digit_units)
  qed
qed

lemma duration_str_first:
  assumes "digits_ok g1" "digits_ok g2" "digits_ok g3" "digits_ok g4"
    and "\<not> (g1 = None \<and> g2 = None \<and> g3 = None \<and> g4 = None)"
  shows "\<exists>ds u r. duration_str (g1, g2, g3, g4) @ t = ds @ u # r \<and> list_all is_digit ds \<and> ds \<noteq> []
           \<and> u \<in> set ''dhms''"
proof (cases g1)
  case (Some d1)
  then have "duration_str (g1, g2, g3, g4) @ t =
      d1 @ CHR ''d'' # (group_str g2 CHR ''h'' @ group_str g3 CHR ''m'' @ group_str g4 CHR ''s'' @ t)"
    by (simp add: duration_str_def group_str_def)
  moreover have "list_all is_digit d1 \<and> d1 \<noteq> []" using assms(1) Some by (simp add: digits_ok_def)
  ultimately show ?thesis by auto
next
  case n1: None
  show ?thesis
  proof (cases g2)
    case (Some d2)
    then have "duration_str (g1, g2, g3, g4) @ t =
        d2 @ CHR ''h'' # (group_str g3 CHR ''m'' @ group_str g4 CHR ''s'' @ t)"
      using n1 by (simp add: duration_str_def group_str_def)
    moreover have "list_all is_digit d2 \<and> d2 \<noteq> []" using assms(2) Some by (simp add: digits_ok_def)
    ultimately show ?thesis by auto
  next
    case n2: None
    show ?thesis
    proof (cases g3)
      case (Some d3)
      then have "duration_str (g1, g2, g3, g4) @ t = d3 @ CHR ''m'' # (group_str g4 CHR ''s'' @ t)"
        using n1 n2 by (simp add: duration_str_def group_str_def)
      moreover have "list_all is_digit d3 \<and> d3 \<noteq> []" using assms(3) Some by (simp add: digits_ok_def)
      ultimately show ?thesis by auto
    next
      case n3: None
      with n1 n2 assms(5) obtain d4 where Some: "g4 = Some d4" by auto
      then have "duration_str (g1, g2, g3, g4) @ t = d4 @ CHR ''s'' # t"
        using n1 n2 n3 by (simp add: duration_str_def group_str_def)
      moreover have "list_all is_digit d4 \<and> d4 \<noteq> []" using assms(4) Some by (simp add: digits_ok_def)
      ultimately show ?thesis by auto
    qed
  qed
qed

lemma parse_succeeds:
  assumes "fst (re_match x) \<noteq> (None, None, None, None)"
  shows "\<exists>v. parse_time_interval x = Inr v"
proof (cases "fst (re_match x)")
  case (fields g1 g2 g3 g4)
  with assms show ?thesis
    by (auto simp add: parse_time_interval_def Let_def)
qed

lemma parse_fails:
  assumes "x \<noteq> []" "\<not> starts_component x"
  shows "parse_time_interval x = Inl (ValueError (''Invalid time interval format: '' @ x))"
proof -
  have "re_match x = ((None, None, None, None), x)"
    using assms(2) by (simp add: re_match_def match_component_none)
  with assms(1) show ?thesis by (simp add: parse_time_interval_def)
qed

lemma not_starts_later_component_Nil: "\<not> starts_later_component k []"
  by (simp add: starts_later_component_def)

lemma match_component_later_none:
  "\<not> starts_later_component k t \<Longrightarrow> u \<in> set (drop k ''dhms'') \<Longrightarrow> match_component u t = (None, t)"
  by (cases "dropWhile is_digit t")
     (auto simp add: match_component_def starts_later_component_def Let_def
        simp del: dropWhile_eq_Nil_conv)

lemma re_match_duration_later:
  assumes "digits_ok g1" "digits_ok g2" "digits_ok g3" "digits_ok g4"
    and "\<not> starts_later_component (last_unit (g1, g2, g3, g4)) t"
  shows "re_match (duration_str (g1, g2, g3, g4) @ t) = ((g1, g2, g3, g4), t)"
proof -
  have ud: "g1 = None \<Longrightarrow> g2 = None \<Longrightarrow> g3 = None \<Longrightarrow> g4 = None \<Longrightarrow>
      match_component CHR ''d'' t = (None, t)"
    using assms(5) by (simp add: last_unit_def match_component_later_none)
  have uh: "g2 = None \<Longrightarrow> g3 = None \<Longrightarrow> g4 = None \<Longrightarrow> match_component CHR ''h'' t = (None, t)"
    using assms(5) by (cases g1) (simp_all add: last_unit_def match_component_later_none)
  have um: "g3 = None \<Longrightarrow> g4 = None \<Longrightarrow> match_component CHR ''m'' t = (None, t)"
    using assms(5) by (cases g1; cases g2) (simp_all add: last_unit_def match_component_later_none)
  have us: "g4 = None \<Longrightarrow> match_component CHR ''s'' t = (None, t)"
    using assms(5)
    by (cases g1; cases g2; cases g3) (simp_all add: last_unit_def match_component_later_none)
  show ?thesis
    using assms(1-4) ud uh um us
    by (cases g1; cases g2; cases g3; cases g4)
       (simp_all add: re_match_def duration_str_def group_str_def digits_ok_def
          match_component_hit match_component_miss not_digit_units)
qed

lemma parse_duration_suffix:
  assumes "digits_ok g1" "digits_ok g2" "digits_ok g3" "digits_ok g4"
    and "\<not> (g1 = None \<and> g2 = None \<and> g3 = None \<and> g4 = None)"
    and "\<not> starts_later_component (last_unit (g1, g2, g3, g4)) t"
  shows "parse_time_interval (duration_str (g1, g2, g3, g4) @ t) =
         Inr (group_int g1 * 86400 + group_int g2 * 3600 + group_int g3 * 60 + group_int g4)"
proof -
  have ne: "duration_str (g1, g2, g3, g4) @ t \<noteq> []"
    using duration_str_first[OF assms(1-5), of t] by auto
  show ?thesis
    using ne assms(5)
    by (simp only: parse_time_interval_def re_match_duration_later[OF assms(1-4,6)] fst_conv
          prod.case Let_def if_False)
qed

lemma digit_val_nonneg: "is_digit c \<Longrightarrow> 0 \<le> digit_val c"
  by (simp add: is_digit_def digit_val_def)

lemma foldl_digits_nonneg:
  "list_all is_digit ds \<Longrightarrow> 0 \<le> a \<Longrightarrow> 0 \<le> foldl (\<lambda>a c. 10 * a + digit_val c) a ds"
proof (induction ds arbitrary: a)
  case Nil
  then show ?case by simp
next
  case (Cons c ds)
  have "0 \<le> digit_val c" using Cons.prems(1) digit_val_nonneg by simp
  with Cons.prems(2) have "0 \<le> 10 * a + digit_val c" by simp
  moreover have "list_all is_digit ds" using Cons.prems(1) by simp
  ultimately have "0 \<le> foldl (\<lambda>a c. 10 * a + digit_val c) (10 * a + digit_val c) ds"
    by (rule Cons.IH[rotated])
  then show ?case by simp
qed

lemma takeWhile_all_digits: "list_all is_digit (takeWhile is_digit s)"
  by (induction s) simp_all

lemma group_int_match_nonneg: "0 \<le> group_int (fst (match_component u s))"
proof -
  have nn: "0 \<le> int_of_digits (takeWhile is_digit s)"
    unfolding int_of_digits_def by (rule foldl_digits_nonneg[OF takeWhile_all_digits]) simp
  show ?thesis
  proof (cases "dropWhile is_digit s")
    case Nil
    then have "match_component u s = (None, s)"
      by (simp only: match_component_def Let_def list.case)
    then show ?thesis by (simp add: group_int_def)
  next
    case (Cons c r)
    then have "match_component u s =
        (if takeWhile is_digit s \<noteq> [] \<and> c = u then (Some (takeWhile is_digit s), r) else (None, s))"
      by (simp only: match_component_def Let_def list.case)
    then show ?thesis using nn by (simp add: group_int_def)
  qed
qed

lemma parse_time_interval_nonneg:
  assumes "parse_time_interval x = Inr v"
  shows "0 \<le> v"
proof (cases "x = []")
  case True
  with assms show ?thesis by (simp add: parse_time_interval_def)
next
  case False
  obtain g1 s1 where m1: "match_component CHR ''d'' x = (g1, s1)" by (cases "match_component CHR ''d'' x")
  obtain g2 s2 where m2: "match_component CHR ''h'' s1 = (g2, s2)" by (cases "match_component CHR ''h'' s1")
  obtain g3 s3 where m3: "match_component CHR ''m'' s2 = (g3, s3)" by (cases "match_component CHR ''m'' s2")
  obtain g4 s4 where m4: "match_component CHR ''s'' s3 = (g4, s4)" by (cases "match_component CHR ''s'' s3")
  have rm: "fst (re_match x) = (g1, g2, g3, g4)"
    by (simp only: re_match_def m1 m2 m3 m4 Let_def prod.case fst_conv)
  have n: "0 \<le> group_int g1" "0 \<le> group_int g2" "0 \<le> group_int g3" "0 \<le> group_int g4"
    using group_int_match_nonneg[of "CHR ''d''" x] group_int_match_nonneg[of "CHR ''h''" s1]
      group_int_match_nonneg[of "CHR ''m''" s2] group_int_match_nonneg[of "CHR ''s''" s3]
    by (simp_all only: m1 m2 m3 m4 fst_conv)
  have "parse_time_interval x =
      (if g1 = None \<and> g2 = None \<and> g3 = None \<and> g4 = None
       then Inl (ValueError (''Invalid time interval format: '' @ x))
       else Inr (group_int g1 * 86400 + group_int g2 * 3600 + group_int g3 * 60 + group_int g4))"
    using False by (simp only: parse_time_interval_def rm prod.case Let_def if_False)
  with assms have "v = group_int g1 * 86400 + group_int g2 * 3600 + group_int g3 * 60 + group_int g4"
    by (simp split: if_splits)
  with n show ?thesis by simp
qed

section \<open>Facts about the commands\<close>

lemma load_config_stored: "config_file w = Stored cfg \<Longrightarrow> load_config w = (Inr cfg, w)"
  by (simp add: load_config_def)

lemma timedelta_in_range: "0 \<le> d \<Longrightarrow> d < 86400000000000 \<Longrightarrow> timedelta d = Inr d"
proof -
  assume a: "0 \<le> d" "d < 86400000000000"
  have "d \<le> 86399999999999" using a(2) by simp
  then have "d div 86400 \<le> 86399999999999 div 86400"
    by (rule zdiv_mono1) simp
  then have "d div 86400 \<le> 999999999"
    by simp
  moreover have "0 \<le> d div 86400"
    using a(1) by simp
  ultimately show ?thesis
    by (simp add: timedelta_def)
qed

lemma timedelta_overflow: "86400000000000 \<le> d \<Longrightarrow> timedelta d = Inl OverflowError"
proof -
  assume "86400000000000 \<le> d"
  then have "86400000000000 div 86400 \<le> d div 86400"
    by (rule zdiv_mono1) simp
  then have "1000000000 \<le> d div 86400"
    by simp
  then show ?thesis
    by (simp add: timedelta_def)
qed

lemma schedule_next_post_jobs:
  assumes "config_file w = Stored cfg" "parse_time_interval (post_interval cfg) = Inr I"
    and "0 \<le> next_delay cfg I now" "next_delay cfg I now + 1 < 86400000000000"
  shows "fst (schedule_next_post now w) = Inr ()
       \<and> job_queue (snd (schedule_next_post now w)) =
           job_queue w @ [(PostScheduledPicture, next_delay cfg I now),
                          (ScheduleNextPost, next_delay cfg I now + 1)]"
proof -
  have t1: "timedelta (next_delay cfg I now) = Inr (next_delay cfg I now)"
    using assms(3,4) by (simp add: timedelta_in_range)
  have t2: "timedelta (next_delay cfg I now + 1) = Inr (next_delay cfg I now + 1)"
    using assms(3,4) by (simp add: timedelta_in_range)
  show ?thesis
    by (simp add: schedule_next_post_def load_config_stored[OF assms(1)] assms(2) Let_def t1 t2
          run_once_def logger_info_def)
qed

text \<open>
  Beyond the range of \<^verbatim>\<open>timedelta\<close> the scheduler raises: with nothing queued when the
  delay itself is out of range, with the post queued alone when only \<open>delay + 1\<close> is.
\<close>

lemma schedule_next_post_overflow:
  assumes "config_file w = Stored cfg" "parse_time_interval (post_interval cfg) = Inr I"
  shows "86400000000000 \<le> next_delay cfg I now \<Longrightarrow>
           fst (schedule_next_post now w) = Inl OverflowError
           \<and> job_queue (snd (schedule_next_post now w)) = job_queue w"
    and "next_delay cfg I now = 86399999999999 \<Longrightarrow>
           fst (schedule_next_post now w) = Inl OverflowError
           \<and> job_queue (snd (schedule_next_post now w)) =
               job_queue w @ [(PostScheduledPicture, 86399999999999)]"
proof -
  assume "86400000000000 \<le> next_delay cfg I now"
  then show "fst (schedule_next_post now w) = Inl OverflowError
      \<and> job_queue (snd (schedule_next_post now w)) = job_queue w"
    by (simp add: schedule_next_post_def load_config_stored[OF assms(1)] assms(2) Let_def
          timedelta_overflow logger_info_def)
next
  assume d: "next_delay cfg I now = 86399999999999"
  have t1: "timedelta 86399999999999 = Inr 86399999999999"
    by (simp add: timedelta_def)
  have t2: "timedelta (86399999999999 + 1) = Inl OverflowError"
    by (simp add: timedelta_def)
  show "fst (schedule_next_post now w) = Inl OverflowError
      \<and> job_queue (snd (schedule_next_post now w)) =
          job_queue w @ [(PostScheduledPicture, 86399999999999)]"
    using t2
    by (simp add: schedule_next_post_def load_config_stored[OF assms(1)] assms(2) Let_def d t1
          run_once_def logger_info_def)
qed

lemma parse_1h: "parse_time_interval ''1h'' = Inr 3600"
  by code_simp

lemma parse_1s: "parse_time_interval ''1s'' = Inr 1"
  by code_simp

lemma parse_0s: "parse_time_interval ''0s'' = Inr 0"
  by code_simp

lemma parse_5s: "parse_time_interval ''5s'' = Inr 5"
  by code_simp

lemma parse_10s: "parse_time_interval ''10s'' = Inr 10"
  by code_simp

section \<open>Properties of the interval codec\<close>

text \<open>
  C1. For every non-negative number of seconds \<open>n\<close>, parsing the string that
  \<^verbatim>\<open>format_time_interval\<close> produces for \<open>n\<close> succeeds and returns \<open>n\<close>.
\<close>

theorem parse_format_roundtrip: "0 \<le> n \<Longrightarrow> parse_time_interval (format_time_interval n) = Inr n"
proof -
  assume n: "0 \<le> n"
  have ge: "0 \<le> n div 86400" "0 \<le> n mod 86400 div 3600" "0 \<le> n mod 86400 mod 3600 div 60"
    "0 \<le> n mod 86400 mod 3600 mod 60" using n by simp_all
  show ?thesis
    by (simp only: format_time_interval_parts parse_format_parts[OF ge] recompose)
qed

theorem parse_format_roundtrip_witness: "parse_time_interval (format_time_interval 90061) = Inr 90061 \<and> format_time_interval 90061 = ''1d1h1m1s''"
proof -
  have "format_time_interval 90061 = ''1d1h1m1s''" by code_simp
  with parse_format_roundtrip[of 90061] show ?thesis by simp
qed

text \<open>
  C9. The empty string parses to zero without failing, \<^verbatim>\<open>garbage\<close> is rejected with the
  \<^verbatim>\<open>ValueError\<close> of the parser, and \<^verbatim>\<open>1d2h3m4s\<close> parses to 93784 seconds.
\<close>

theorem parse_time_interval_examples:
  "parse_time_interval [] = Inr 0
   \<and> parse_time_interval ''garbage'' = Inl (ValueError ''Invalid time interval format: garbage'')
   \<and> parse_time_interval ''1d2h3m4s'' = Inr 93784"
proof (intro conjI)
  show "parse_time_interval [] = Inr 0" by (simp add: parse_time_interval_def)
  show "parse_time_interval ''garbage'' = Inl (ValueError ''Invalid time interval format: garbage'')"
    by code_simp
  show "parse_time_interval ''1d2h3m4s'' = Inr 93784" by code_simp
qed

text \<open>
  C10. For every non-negative number of seconds the formatter emits exactly the non-zero
  components among days, hours, minutes and seconds, in that order, and \<^verbatim>\<open>0s\<close> when there is
  none, so its output is never empty; 0 gives \<^verbatim>\<open>0s\<close>, 90 gives \<^verbatim>\<open>1m30s\<close> and 90061 gives
  \<^verbatim>\<open>1d1h1m1s\<close>.
\<close>

theorem format_time_interval_components:
  "(0 \<le> n \<longrightarrow> format_time_interval n = format_spec n \<and> format_time_interval n \<noteq> [])
   \<and> format_time_interval 0 = ''0s''
   \<and> format_time_interval 90 = ''1m30s''
   \<and> format_time_interval 90061 = ''1d1h1m1s''"
proof (intro conjI impI)
  assume n: "0 \<le> n"
  have ge: "0 \<le> n div 86400" "0 \<le> n div 3600 mod 24" "0 \<le> n div 60 mod 60" "0 \<le> n mod 60"
    using n by simp_all
  show "format_time_interval n = format_spec n"
    by (simp only: format_time_interval_parts rem_eq hours_eq minutes_eq seconds_eq
          format_parts_spec[OF ge] format_spec_def)
next
  show "format_time_interval n \<noteq> []"
    by (simp only: format_time_interval_parts format_parts_nonempty not_False_eq_True)
next
  show "format_time_interval 0 = ''0s''" by code_simp
next
  show "format_time_interval 90 = ''1m30s''" by code_simp
next
  show "format_time_interval 90061 = ''1d1h1m1s''" by code_simp
qed

theorem format_time_interval_components_witness:
  "format_time_interval 3725 = format_spec 3725 \<and> format_time_interval 3725 = ''1h2m5s''"
proof -
  have "format_time_interval 3725 = ''1h2m5s''" by code_simp
  with format_time_interval_components[of 3725] show ?thesis by simp
qed

text \<open>
  C4, as amended. Let \<open>s\<close> be a non-empty compact duration (at least one group present) and
  \<open>t\<close> any suffix. Parsing \<open>s @ t\<close> always succeeds. It gives the value of \<open>s\<close> whenever \<open>t\<close>
  does not begin with a component (digits followed by a unit letter) whose unit comes
  later in the order d, h, m, s than the last group of \<open>s\<close>; only such a suffix is consumed
  by the prefix match instead of being ignored. A non-empty string that does not begin
  with a component is rejected with the \<^verbatim>\<open>ValueError\<close> of the parser.
\<close>

theorem parse_time_interval_trailing:
  assumes "digits_ok g1" "digits_ok g2" "digits_ok g3" "digits_ok g4"
    and "\<not> (g1 = None \<and> g2 = None \<and> g3 = None \<and> g4 = None)"
    and "s = duration_str (g1, g2, g3, g4)"
  shows "(\<exists>v. parse_time_interval (s @ t) = Inr v)
       \<and> (\<not> starts_later_component (last_unit (g1, g2, g3, g4)) t \<longrightarrow>
            parse_time_interval (s @ t) = parse_time_interval s)
       \<and> (x \<noteq> [] \<and> \<not> starts_component x \<longrightarrow>
            parse_time_interval x = Inl (ValueError (''Invalid time interval format: '' @ x)))"
proof (intro conjI impI)
  obtain ds u r where "s @ t = ds @ u # r" "list_all is_digit ds" "ds \<noteq> []" "u \<in> set ''dhms''"
    using duration_str_first[OF assms(1-5), of t] assms(6) by auto
  then show "\<exists>v. parse_time_interval (s @ t) = Inr v"
    using parse_succeeds[OF re_match_component_first, of ds u r] by simp
next
  assume t: "\<not> starts_later_component (last_unit (g1, g2, g3, g4)) t"
  have "parse_time_interval (s @ []) = parse_time_interval (s @ t)"
    unfolding assms(6)
    by (simp only: parse_duration_suffix[OF assms(1-5) t]
          parse_duration_suffix[OF assms(1-5) not_starts_later_component_Nil])
  then show "parse_time_interval (s @ t) = parse_time_interval s" by simp
next
  assume "x \<noteq> [] \<and> \<not> starts_component x"
  then show "parse_time_interval x = Inl (ValueError (''Invalid time interval format: '' @ x))"
    using parse_fails by simp
qed

theorem parse_time_interval_trailing_witness:
  "parse_time_interval (''1d30m'' @ '' later'') = parse_time_interval ''1d30m''
   \<and> parse_time_interval (''1d30m'' @ ''2h'') = parse_time_interval ''1d30m''
   \<and> parse_time_interval (''1d30m'' @ ''45m'') = parse_time_interval ''1d30m''
   \<and> parse_time_interval ''1d30m'' = Inr 88200
   \<and> parse_time_interval ''later'' = Inl (ValueError ''Invalid time interval format: later'')"
proof -
  have g: "digits_ok (Some ''1'')" "digits_ok None" "digits_ok (Some ''30'')"
    by (simp_all add: digits_ok_def is_digit_def)
  have p: "\<not> (Some ''1'' = None \<and> (None :: string option) = None \<and> Some ''30'' = None
             \<and> (None :: string option) = None)"
    by simp
  have s: "''1d30m'' = duration_str (Some ''1'', None, Some ''30'', None)"
    by (simp add: duration_str_def group_str_def)
  have l: "last_unit (Some ''1'', None, Some ''30'', None) = 3"
    by (simp add: last_unit_def)
  have t: "\<not> starts_later_component 3 '' later''" "\<not> starts_later_component 3 ''2h''"
    "\<not> starts_later_component 3 ''45m''" "\<not> starts_component ''later''"
    by (simp_all add: starts_later_component_def starts_component_def is_digit_def)
  have v: "parse_time_interval ''1d30m'' = Inr 88200"
    by code_simp
  show ?thesis
    using parse_time_interval_trailing[OF g(1) g(2) g(3) g(2) p s, of "'' later''" "''later''"]
      parse_time_interval_trailing[OF g(1) g(2) g(3) g(2) p s, of "''2h''" "''later''"]
      parse_time_interval_trailing[OF g(1) g(2) g(3) g(2) p s, of "''45m''" "''later''"]
      l t v
    by simp
qed

text \<open>
  The claim as stated fails when the suffix continues the duration: \<^verbatim>\<open>1d\<close> is a compact
  duration worth 86400 seconds, and with the suffix \<^verbatim>\<open>2h\<close> the parser returns 93600.
\<close>

theorem parse_time_interval_trailing_counterexample:
  "digits_ok (Some ''1'')
   \<and> duration_str (Some ''1'', None, None, None) = ''1d''
   \<and> parse_time_interval ''1d'' = Inr 86400
   \<and> parse_time_interval (''1d'' @ ''2h'') = Inr 93600
   \<and> parse_time_interval (''1d'' @ ''2h'') \<noteq> parse_time_interval ''1d''"
proof -
  have a: "digits_ok (Some ''1'')"
    by (simp add: digits_ok_def is_digit_def)
  have b: "duration_str (Some ''1'', None, None, None) = ''1d''"
    by (simp add: duration_str_def group_str_def)
  have c: "parse_time_interval ''1d'' = Inr 86400"
    by code_simp
  have d: "parse_time_interval (''1d'' @ ''2h'') = Inr 93600"
    by code_simp
  show ?thesis
    using a b c d by simp
qed

section \<open>Properties of the scheduler\<close>

text \<open>
  C2, as amended. For a stored configuration whose \<open>last_post_time\<close> is a non-zero
  timestamp \<open>T\<close> and whose interval parses to \<open>I\<close> seconds, the delay is 1 when
  \<open>T + I \<le> now\<close> and \<open>(T + I) - now\<close> otherwise. When that delay plus one is below
  86400000000000 seconds, the range of \<^verbatim>\<open>timedelta\<close>, the scheduler returns normally with
  the post queued at the delay and its own next run one second later.
\<close>

theorem schedule_next_post_delay_after_post:
  assumes "config_file w = Stored cfg" "last_post_time cfg = Some T" "T \<noteq> 0"
    and "parse_time_interval (post_interval cfg) = Inr I"
  shows "next_delay cfg I now = (if T + I \<le> now then 1 else (T + I) - now)
       \<and> (next_delay cfg I now + 1 < 86400000000000 \<longrightarrow>
            fst (schedule_next_post now w) = Inr ()
          \<and> job_queue (snd (schedule_next_post now w)) =
              job_queue w @ [(PostScheduledPicture, next_delay cfg I now),
                             (ScheduleNextPost, next_delay cfg I now + 1)])"
proof (intro conjI impI)
  show d: "next_delay cfg I now = (if T + I \<le> now then 1 else (T + I) - now)"
    using assms(2,3) by (simp add: next_delay_def)
  then have nonneg: "0 \<le> next_delay cfg I now"
    by (simp split: if_splits)
  {
    assume b: "next_delay cfg I now + 1 < 86400000000000"
    show "fst (schedule_next_post now w) = Inr ()"
      using schedule_next_post_jobs[OF assms(1,4) nonneg b] by (rule conjunct1)
    show "job_queue (snd (schedule_next_post now w)) =
        job_queue w @ [(PostScheduledPicture, next_delay cfg I now),
                       (ScheduleNextPost, next_delay cfg I now + 1)]"
      using schedule_next_post_jobs[OF assms(1,4) nonneg b] by (rule conjunct2)
  }
qed

theorem schedule_next_post_delay_after_post_witness:
  "next_delay example_config 3600 2000 = 2600
   \<and> job_queue (snd (schedule_next_post 2000 example_world))
     = [(PostScheduledPicture, 2600), (ScheduleNextPost, 2601)]
   \<and> next_delay example_config 3600 9000 = 1
   \<and> job_queue (snd (schedule_next_post 9000 example_world))
     = [(PostScheduledPicture, 1), (ScheduleNextPost, 2)]"
proof -
  have c: "config_file example_world = Stored example_config"
    by (simp add: example_world_def)
  have l: "last_post_time example_config = Some 1000"
    by (simp add: example_config_def)
  have n: "(1000::int) \<noteq> 0"
    by simp
  have p: "parse_time_interval (post_interval example_config) = Inr 3600"
    by (simp add: example_config_def parse_1h)
  have q: "job_queue example_world = []"
    by (simp add: example_world_def)
  show ?thesis
    using schedule_next_post_delay_after_post[OF c l n p, of 2000]
      schedule_next_post_delay_after_post[OF c l n p, of 9000] q
    by simp
qed

text \<open>
  The claim as stated fails for a stored timestamp of 0: with the interval \<^verbatim>\<open>10s\<close> and the
  clock at 100 the target \<open>0 + 10\<close> is in the past, yet the delay is 10 and not 1.
\<close>

theorem schedule_next_post_zero_timestamp_counterexample:
  "last_post_time (example_config\<lparr>post_interval := ''10s'', last_post_time := Some 0\<rparr>) = Some 0
   \<and> parse_time_interval (post_interval (example_config\<lparr>post_interval := ''10s'', last_post_time := Some 0\<rparr>)) = Inr 10
   \<and> (0::int) + 10 \<le> 100
   \<and> next_delay (example_config\<lparr>post_interval := ''10s'', last_post_time := Some 0\<rparr>) 10 100 = 10
   \<and> job_queue (snd (schedule_next_post 100
        (example_world\<lparr>config_file :=
           Stored (example_config\<lparr>post_interval := ''10s'', last_post_time := Some 0\<rparr>)\<rparr>)))
     = [(PostScheduledPicture, 10), (ScheduleNextPost, 11)]"
  by (simp add: schedule_next_post_def load_config_def logger_info_def next_delay_def parse_10s
        timedelta_def run_once_def example_world_def)

text \<open>
  C3, as amended. For a stored configuration with no \<open>last_post_time\<close> whose interval
  parses to \<open>I\<close> seconds, the delay is exactly \<open>I\<close>; it is 1 only when \<open>I\<close> is 1 and 0 only
  when \<open>I\<close> is 0. When \<open>I + 1\<close> is below 86400000000000 seconds, the range of
  \<^verbatim>\<open>timedelta\<close>, the scheduler returns normally with the post queued at \<open>I\<close> and its own
  next run at \<open>I + 1\<close>.
\<close>

theorem schedule_next_post_first_delay:
  assumes "config_file w = Stored cfg" "last_post_time cfg = None"
    and "parse_time_interval (post_interval cfg) = Inr I"
  shows "next_delay cfg I now = I
       \<and> (next_delay cfg I now = 1 \<longleftrightarrow> I = 1) \<and> (next_delay cfg I now = 0 \<longleftrightarrow> I = 0)
       \<and> (I + 1 < 86400000000000 \<longrightarrow>
            fst (schedule_next_post now w) = Inr ()
          \<and> job_queue (snd (schedule_next_post now w)) =
              job_queue w @ [(PostScheduledPicture, I), (ScheduleNextPost, I + 1)])"
proof -
  have d: "next_delay cfg I now = I"
    using assms(2) by (simp add: next_delay_def)
  have nonneg: "0 \<le> next_delay cfg I now"
    using parse_time_interval_nonneg[OF assms(3)] d by simp
  have "I + 1 < 86400000000000 \<Longrightarrow>
      fst (schedule_next_post now w) = Inr ()
      \<and> job_queue (snd (schedule_next_post now w)) =
          job_queue w @ [(PostScheduledPicture, I), (ScheduleNextPost, I + 1)]"
    using schedule_next_post_jobs[OF assms(1,3) nonneg] d by simp
  with d show ?thesis
    by simp
qed

theorem schedule_next_post_first_delay_witness:
  "next_delay (example_config\<lparr>last_post_time := None\<rparr>) 3600 2000 = 3600
   \<and> job_queue (snd (schedule_next_post 2000
       (example_world\<lparr>config_file := Stored (example_config\<lparr>last_post_time := None\<rparr>)\<rparr>)))
     = [(PostScheduledPicture, 3600), (ScheduleNextPost, 3601)]"
proof -
  let ?cfg = "example_config\<lparr>last_post_time := None\<rparr>"
  let ?w = "example_world\<lparr>config_file := Stored ?cfg\<rparr>"
  have c: "config_file ?w = Stored ?cfg"
    by simp
  have l: "last_post_time ?cfg = None"
    by simp
  have p: "parse_time_interval (post_interval ?cfg) = Inr 3600"
    by (simp add: example_config_def parse_1h)
  have q: "job_queue ?w = []"
    by (simp add: example_world_def)
  show ?thesis
    using schedule_next_post_first_delay[OF c l p, of 2000] q by simp
qed

text \<open>
  The claim as stated fails for an interval of one second or of zero seconds: with no
  \<open>last_post_time\<close> the interval \<^verbatim>\<open>1s\<close> gives the delay 1 and the interval \<^verbatim>\<open>0s\<close> gives
  the delay 0.
\<close>

theorem schedule_next_post_first_delay_counterexample:
  "last_post_time (example_config\<lparr>post_interval := ''1s'', last_post_time := None\<rparr>) = None
   \<and> parse_time_interval (post_interval (example_config\<lparr>post_interval := ''1s'', last_post_time := None\<rparr>)) = Inr 1
   \<and> next_delay (example_config\<lparr>post_interval := ''1s'', last_post_time := None\<rparr>) 1 2000 = 1
   \<and> job_queue (snd (schedule_next_post 2000
        (example_world\<lparr>config_file :=
           Stored (example_config\<lparr>post_interval := ''1s'', last_post_time := None\<rparr>)\<rparr>)))
     = [(PostScheduledPicture, 1), (ScheduleNextPost, 2)]
   \<and> parse_time_interval (post_interval (example_config\<lparr>post_interval := ''0s'', last_post_time := None\<rparr>)) = Inr 0
   \<and> next_delay (example_config\<lparr>post_interval := ''0s'', last_post_time := None\<rparr>) 0 2000 = 0
   \<and> job_queue (snd (schedule_next_post 2000
        (example_world\<lparr>config_file :=
           Stored (example_config\<lparr>post_interval := ''0s'', last_post_time := None\<rparr>)\<rparr>)))
     = [(PostScheduledPicture, 0), (ScheduleNextPost, 1)]"
  by (simp add: schedule_next_post_def load_config_def logger_info_def next_delay_def parse_1s
        parse_0s timedelta_def run_once_def example_world_def)

text \<open>
  C5. A stored \<open>last_post_time\<close> of 0 is treated as "never posted": the scheduler's delay
  is the interval, the same as for a configuration without \<open>last_post_time\<close>, and not the
  catch-up delay of 1; the status report of the operator says that no posts have been made
  yet. When the interval plus one is below 86400000000000 seconds, the range of
  \<^verbatim>\<open>timedelta\<close>, the scheduler returns normally with the post queued at the interval.
\<close>

theorem zero_last_post_time_as_never_posted:
  assumes "config_file w = Stored cfg" "last_post_time cfg = Some 0"
    and "parse_time_interval (post_interval cfg) = Inr I"
  shows "next_delay cfg I now = I
       \<and> next_delay cfg I now = next_delay (cfg\<lparr>last_post_time := None\<rparr>) I now
       \<and> (I + 1 < 86400000000000 \<longrightarrow>
            fst (schedule_next_post now w) = Inr ()
          \<and> job_queue (snd (schedule_next_post now w)) =
              job_queue w @ [(PostScheduledPicture, I), (ScheduleNextPost, I + 1)])
       \<and> status (admin_id cfg) utc_offset now_us w =
           (Inr (), w\<lparr>replies := replies w @
              [StatusText (channel_name cfg) (picture_path cfg) (post_interval cfg)
                 (format_time_interval I) NoPostsYet]\<rparr>)"
proof -
  have d: "next_delay cfg I now = I"
    using assms(2) by (simp add: next_delay_def)
  have e: "next_delay cfg I now = next_delay (cfg\<lparr>last_post_time := None\<rparr>) I now"
    using assms(2) by (simp add: next_delay_def)
  have nonneg: "0 \<le> next_delay cfg I now"
    using parse_time_interval_nonneg[OF assms(3)] d by simp
  have j: "I + 1 < 86400000000000 \<Longrightarrow>
      fst (schedule_next_post now w) = Inr ()
      \<and> job_queue (snd (schedule_next_post now w)) =
          job_queue w @ [(PostScheduledPicture, I), (ScheduleNextPost, I + 1)]"
    using schedule_next_post_jobs[OF assms(1,3) nonneg] d by simp
  have s: "status (admin_id cfg) utc_offset now_us w =
           (Inr (), w\<lparr>replies := replies w @
              [StatusText (channel_name cfg) (picture_path cfg) (post_interval cfg)
                 (format_time_interval I) NoPostsYet]\<rparr>)"
    by (simp add: status_def load_config_stored[OF assms(1)] assms(2,3) reply_text_def)
  show ?thesis
    using d e j s by blast
qed

theorem zero_last_post_time_as_never_posted_witness:
  "next_delay (example_config\<lparr>last_post_time := Some 0\<rparr>) 3600 99999 = 3600
   \<and> job_queue (snd (schedule_next_post 99999
       (example_world\<lparr>config_file := Stored (example_config\<lparr>last_post_time := Some 0\<rparr>)\<rparr>)))
     = [(PostScheduledPicture, 3600), (ScheduleNextPost, 3601)]
   \<and> replies (snd (status 42 (\<lambda>t. 7200) 99999000000
       (example_world\<lparr>config_file := Stored (example_config\<lparr>last_post_time := Some 0\<rparr>)\<rparr>)))
     = [StatusText ''@channel'' ''pictures/cat.jpg'' ''1h'' ''1h'' NoPostsYet]"
proof -
  let ?cfg = "example_config\<lparr>last_post_time := Some 0\<rparr>"
  let ?w = "example_world\<lparr>config_file := Stored ?cfg\<rparr>"
  have c: "config_file ?w = Stored ?cfg"
    by simp
  have l: "last_post_time ?cfg = Some 0"
    by simp
  have p: "parse_time_interval (post_interval ?cfg) = Inr 3600"
    by (simp add: example_config_def parse_1h)
  have f: "format_time_interval 3600 = ''1h''"
    by code_simp
  have a: "admin_id ?cfg = 42"
    by (simp add: example_config_def)
  show ?thesis
    using zero_last_post_time_as_never_posted[OF c l p, of 99999 "\<lambda>t. 7200" 99999000000] f a
    by (simp add: example_config_def example_world_def)
qed

section \<open>Properties of the commands\<close>

text \<open>
  C6. A post attempt that fails, because the configured picture does not exist or because
  the transmission raises, leaves the stored configuration, and so \<open>last_post_time\<close>,
  unchanged, for the manual post of any user and for the scheduled post. The stored
  configuration changes only when the picture exists and the transmission succeeded (and,
  for the manual post, the user is the operator); then \<open>last_post_time\<close> becomes the
  current time and the picture has been delivered to the channel.
\<close>

theorem failed_post_keeps_last_post_time:
  assumes "config_file w = Stored cfg"
  shows "(picture_path cfg \<notin> set (files w) \<or> send \<noteq> None \<longrightarrow>
            config_file (snd (post_now uid now send w)) = Stored cfg
          \<and> config_file (snd (post_scheduled_picture now send w)) = Stored cfg)
       \<and> (config_file (snd (post_now uid now send w)) \<noteq> Stored cfg \<longrightarrow>
            uid = admin_id cfg \<and> picture_path cfg \<in> set (files w) \<and> send = None)
       \<and> (config_file (snd (post_scheduled_picture now send w)) \<noteq> Stored cfg \<longrightarrow>
            picture_path cfg \<in> set (files w) \<and> send = None)
       \<and> (picture_path cfg \<in> set (files w) \<and> send = None \<longrightarrow>
            (uid = admin_id cfg \<longrightarrow>
               config_file (snd (post_now uid now send w)) = Stored (cfg\<lparr>last_post_time := Some now\<rparr>)
             \<and> channel_posts (snd (post_now uid now send w)) =
                 channel_posts w @ [(channel_name cfg, picture_path cfg)])
          \<and> config_file (snd (post_scheduled_picture now send w)) =
               Stored (cfg\<lparr>last_post_time := Some now\<rparr>)
          \<and> channel_posts (snd (post_scheduled_picture now send w)) =
               channel_posts w @ [(channel_name cfg, picture_path cfg)])"
proof -
  note defs = post_now_def post_scheduled_picture_def load_config_stored[OF assms]
    reply_text_def logger_error_def logger_info_def save_config_def Let_def
  have a: "picture_path cfg \<notin> set (files w) \<or> send \<noteq> None \<Longrightarrow>
      config_file (snd (post_now uid now send w)) = Stored cfg"
    using assms by (cases send) (auto simp add: defs)
  have b: "picture_path cfg \<notin> set (files w) \<or> send \<noteq> None \<Longrightarrow>
      config_file (snd (post_scheduled_picture now send w)) = Stored cfg"
    using assms by (cases send) (auto simp add: defs)
  have c: "uid \<noteq> admin_id cfg \<Longrightarrow> config_file (snd (post_now uid now send w)) = Stored cfg"
    using assms by (simp add: defs)
  have d: "picture_path cfg \<in> set (files w) \<Longrightarrow> send = None \<Longrightarrow> uid = admin_id cfg \<Longrightarrow>
      config_file (snd (post_now uid now send w)) = Stored (cfg\<lparr>last_post_time := Some now\<rparr>)
      \<and> channel_posts (snd (post_now uid now send w)) =
          channel_posts w @ [(channel_name cfg, picture_path cfg)]"
    by (simp add: defs)
  have e: "picture_path cfg \<in> set (files w) \<Longrightarrow> send = None \<Longrightarrow>
      config_file (snd (post_scheduled_picture now send w)) = Stored (cfg\<lparr>last_post_time := Some now\<rparr>)
      \<and> channel_posts (snd (post_scheduled_picture now send w)) =
          channel_posts w @ [(channel_name cfg, picture_path cfg)]"
    by (simp add: defs)
  show ?thesis
    using a b c d e by blast
qed

theorem failed_post_keeps_last_post_time_witness:
  "config_file (snd (post_now 42 5000 (Some ''timed out'') example_world)) = Stored example_config
   \<and> config_file (snd (post_scheduled_picture 5000 (Some ''timed out'') example_world))
       = Stored example_config
   \<and> config_file (snd (post_now 42 5000 None (example_world\<lparr>files := []\<rparr>))) = Stored example_config
   \<and> config_file (snd (post_scheduled_picture 5000 None (example_world\<lparr>files := []\<rparr>)))
       = Stored example_config
   \<and> config_file (snd (post_now 42 5000 None example_world))
       = Stored (example_config\<lparr>last_post_time := Some 5000\<rparr>)
   \<and> config_file (snd (post_scheduled_picture 5000 None example_world))
       = Stored (example_config\<lparr>last_post_time := Some 5000\<rparr>)"
proof -
  have c: "config_file example_world = Stored example_config"
    by (simp add: example_world_def)
  have c': "config_file (example_world\<lparr>files := []\<rparr>) = Stored example_config"
    by (simp add: example_world_def)
  have f: "picture_path example_config \<in> set (files example_world)"
    by (simp add: example_world_def example_config_def)
  have a: "admin_id example_config = 42"
    by (simp add: example_config_def)
  show ?thesis
    using failed_post_keeps_last_post_time[OF c, of "Some ''timed out''" 42 5000]
      failed_post_keeps_last_post_time[OF c', of None 42 5000]
      failed_post_keeps_last_post_time[OF c, of None 42 5000] f a
    by simp
qed

text \<open>
  C7. For the operator, \<^verbatim>\<open>setinterval\<close> stores its argument as \<open>post_interval\<close> exactly when
  the argument is present, parses, and parses to at least 10 seconds; otherwise nothing is
  saved and the configuration is unchanged. \<^verbatim>\<open>5s\<close> is rejected as too small and \<^verbatim>\<open>10s\<close> is
  stored.
\<close>

theorem set_interval_stores_iff_acceptable:
  assumes "config_file w = Stored cfg" "uid = admin_id cfg"
  shows "(args \<noteq> [] \<and> (\<exists>n. parse_time_interval (hd args) = Inr n \<and> 10 \<le> n) \<longrightarrow>
            config_file (snd (set_interval uid args w)) = Stored (cfg\<lparr>post_interval := hd args\<rparr>)
          \<and> log (snd (set_interval uid args w)) = log w @ [LogInfo ''Config saved successfully.''])
       \<and> (\<not> (args \<noteq> [] \<and> (\<exists>n. parse_time_interval (hd args) = Inr n \<and> 10 \<le> n)) \<longrightarrow>
            config_file (snd (set_interval uid args w)) = Stored cfg
          \<and> log (snd (set_interval uid args w)) = log w)
       \<and> snd (set_interval uid [''5s''] w) = w\<lparr>replies := replies w @ [IntervalTooSmall]\<rparr>
       \<and> config_file (snd (set_interval uid [''10s''] w)) = Stored (cfg\<lparr>post_interval := ''10s''\<rparr>)"
proof -
  note defs = set_interval_def load_config_stored[OF assms(1)] assms(2)
    reply_text_def logger_info_def save_config_def
  have acc: "args \<noteq> [] \<Longrightarrow> parse_time_interval (hd args) = Inr n \<Longrightarrow> 10 \<le> n \<Longrightarrow>
      config_file (snd (set_interval uid args w)) = Stored (cfg\<lparr>post_interval := hd args\<rparr>)
      \<and> log (snd (set_interval uid args w)) = log w @ [LogInfo ''Config saved successfully.'']" for n
    by (cases args) (simp_all add: defs)
  have rej: "\<not> (args \<noteq> [] \<and> (\<exists>n. parse_time_interval (hd args) = Inr n \<and> 10 \<le> n)) \<Longrightarrow>
      config_file (snd (set_interval uid args w)) = Stored cfg
      \<and> log (snd (set_interval uid args w)) = log w"
    using assms(1)
    by (cases args) (auto simp add: defs split: sum.splits error.splits)
  have five: "snd (set_interval uid [''5s''] w) = w\<lparr>replies := replies w @ [IntervalTooSmall]\<rparr>"
    by (simp add: defs parse_5s)
  have ten: "config_file (snd (set_interval uid [''10s''] w)) = Stored (cfg\<lparr>post_interval := ''10s''\<rparr>)"
    by (simp add: defs parse_10s)
  show ?thesis
    using acc rej five ten by blast
qed

theorem set_interval_stores_iff_acceptable_witness:
  "config_file (snd (set_interval 42 [''10s''] example_world))
     = Stored (example_config\<lparr>post_interval := ''10s''\<rparr>)
   \<and> log (snd (set_interval 42 [''10s''] example_world)) = [LogInfo ''Config saved successfully.'']
   \<and> config_file (snd (set_interval 42 [''5s''] example_world)) = Stored example_config
   \<and> log (snd (set_interval 42 [''5s''] example_world)) = []
   \<and> config_file (snd (set_interval 42 [] example_world)) = Stored example_config
   \<and> config_file (snd (set_interval 42 [''soon''] example_world)) = Stored example_config"
proof -
  have c: "config_file example_world = Stored example_config"
    by (simp add: example_world_def)
  have a: "42 = admin_id example_config"
    by (simp add: example_config_def)
  have l: "log example_world = []"
    by (simp add: example_world_def)
  have soon: "parse_time_interval ''soon'' = Inl (ValueError ''Invalid time interval format: soon'')"
    by code_simp
  show ?thesis
    using set_interval_stores_iff_acceptable[OF c a, of "[''10s'']"]
      set_interval_stores_iff_acceptable[OF c a, of "[''5s'']"]
      set_interval_stores_iff_acceptable[OF c a, of "[]"]
      set_interval_stores_iff_acceptable[OF c a, of "[''soon'']"]
      l soon
    by (simp add: parse_5s parse_10s)
qed

text \<open>
  C8. When the invoking user is not the stored \<open>admin_id\<close>, each of the six commands
  answers with the authorization denial and changes nothing else: the world afterwards is
  the world before with that one reply added, so the stored configuration is the same.
\<close>

theorem unauthorized_no_state_change:
  assumes "config_file w = Stored cfg" "uid \<noteq> admin_id cfg"
  shows "start uid w = (Inr (), w\<lparr>replies := replies w @ [NotAuthorized]\<rparr>)
       \<and> status uid utc_offset now_us w = (Inr (), w\<lparr>replies := replies w @ [NotAuthorized]\<rparr>)
       \<and> set_channel uid args w = (Inr (), w\<lparr>replies := replies w @ [NotAuthorized]\<rparr>)
       \<and> set_interval uid args w = (Inr (), w\<lparr>replies := replies w @ [NotAuthorized]\<rparr>)
       \<and> set_picture uid reply_photo now download_ok w =
           (Inr (), w\<lparr>replies := replies w @ [NotAuthorized]\<rparr>)
       \<and> post_now uid now send w = (Inr (), w\<lparr>replies := replies w @ [NotAuthorized]\<rparr>)
       \<and> config_file (w\<lparr>replies := replies w @ [NotAuthorized]\<rparr>) = Stored cfg"
  using assms(2)
  by (simp add: start_def status_def set_channel_def set_interval_def set_picture_def
        post_now_def load_config_stored[OF assms(1)] reply_text_def assms(1))

theorem unauthorized_no_state_change_witness:
  "config_file (snd (start 7 example_world)) = Stored example_config
   \<and> config_file (snd (status 7 (\<lambda>t. 3600) 0 example_world)) = Stored example_config
   \<and> config_file (snd (set_channel 7 [''@other''] example_world)) = Stored example_config
   \<and> config_file (snd (set_interval 7 [''10s''] example_world)) = Stored example_config
   \<and> config_file (snd (set_picture 7 (Some [''file'']) 5000 True example_world))
       = Stored example_config
   \<and> config_file (snd (post_now 7 5000 None example_world)) = Stored example_config
   \<and> replies (snd (post_now 7 5000 None example_world)) = [NotAuthorized]"
proof -
  have c: "config_file example_world = Stored example_config"
    by (simp add: example_world_def)
  have a: "7 \<noteq> admin_id example_config"
    by (simp add: example_config_def)
  have r: "replies example_world = []"
    by (simp add: example_world_def)
  show ?thesis
    using unauthorized_no_state_change[OF c a, of "\<lambda>t. 3600" 0 "[''@other'']" "Some [''file'']" 5000 True None]
      unauthorized_no_state_change[OF c a, of "\<lambda>t. 3600" 0 "[''10s'']" "Some [''file'']" 5000 True None] r
    by simp
qed

end
